theory Spec2Isabelle
  imports Complex_Main
begin

section \<open>Data model of \<open>snake_game/game.py\<close>\<close>

text \<open>
  \<open>Point\<close> is the frozen dataclass with the integer fields \<open>x\<close> and \<open>y\<close>; the
  selectors are called \<open>point_x\<close> and \<open>point_y\<close> so that \<open>x\<close> and \<open>y\<close> stay usable
  as variables. Python's integers are unbounded, hence \<open>int\<close>.
\<close>

datatype Point = Point (point_x: int) (point_y: int)

definition translate :: "Point \<Rightarrow> int \<Rightarrow> int \<Rightarrow> Point" where
  "translate p dx dy = Point (point_x p + dx) (point_y p + dy)"

datatype Direction = UP | DOWN | LEFT | RIGHT

fun delta :: "Direction \<Rightarrow> int \<times> int" where
  "delta UP = (0, -1)"
| "delta DOWN = (0, 1)"
| "delta LEFT = (-1, 0)"
| "delta RIGHT = (1, 0)"

definition is_opposite :: "Direction \<Rightarrow> Direction \<Rightarrow> bool" where
  "is_opposite d other =
     (case delta d of (dx, dy) \<Rightarrow>
        (case delta other of (ox, oy) \<Rightarrow> dx = - ox \<and> dy = - oy))"

datatype GameState = RUNNING | COLLISION | WIN

text \<open>
  The exceptions the modelled code can raise: \<open>ValueError\<close> from the constructor (with its
  message), \<open>IndexError\<close> from indexing or popping an empty deque, \<open>KeyError\<close> from
  \<open>set.remove\<close> of an absent element.
\<close>

datatype py_error = ValueError string | IndexError | KeyError

text \<open>
  The attributes of a \<open>SnakeGame\<close> instance. The deque \<open>snake\<close> is a list with the head
  at index 0; \<open>snake_positions\<close> is the companion set. \<open>frame_delay\<close> is a Python float;
  it is modelled as a real number.
\<close>

record SnakeGame =
  width :: int
  height :: int
  speed :: int
  frame_delay :: real
  snake :: "Point list"
  snake_positions :: "Point set"
  direction :: Direction
  next_direction :: Direction
  food :: "Point option"
  score :: int
  paused :: bool
  quit_requested :: bool
  needs_redraw :: bool

subsection \<open>Construction\<close>

definition init :: "int \<Rightarrow> int \<Rightarrow> int \<Rightarrow> py_error + SnakeGame" where
  "init w h s =
     (if w < 10 \<or> h < 10 then Inl (ValueError ''Width and height must be at least 10.'')
      else if s < 1 \<or> s > 30
        then Inl (ValueError ''Speed must be between 1 and 30 frames per second.'')
      else Inr \<lparr> width = w, height = h, speed = s,
                 frame_delay = 1 / real_of_int s,
                 snake = [], snake_positions = {},
                 direction = RIGHT, next_direction = RIGHT,
                 food = None, score = 0,
                 paused = False, quit_requested = False, needs_redraw = True \<rparr>)"

subsection \<open>Food spawning\<close>

text \<open>
  The comprehension of \<open>_spawn_food\<close>: rows \<open>y\<close> in \<open>range(height)\<close>, inside each row
  columns \<open>x\<close> in \<open>range(width)\<close>, keeping the cells that are not in the set.
\<close>

definition empty_cells :: "SnakeGame \<Rightarrow> Point list" where
  "empty_cells g =
     concat (map (\<lambda>y. map (\<lambda>x. Point x y)
                         (filter (\<lambda>x. Point x y \<notin> snake_positions g) [0..width g - 1]))
                 [0..height g - 1])"

text \<open>
  \<open>random.choice\<close> on a non-empty sequence returns the element at some index below its
  length. The random draw is the explicit argument \<open>r\<close>; every index is reached by some
  draw.
\<close>

definition random_choice :: "nat \<Rightarrow> 'a list \<Rightarrow> 'a" where
  "random_choice r xs = xs ! (r mod length xs)"

definition spawn_food :: "nat \<Rightarrow> SnakeGame \<Rightarrow> SnakeGame" where
  "spawn_food r g =
     (let cells = empty_cells g
      in g\<lparr>food := (if cells \<noteq> [] then Some (random_choice r cells) else None)\<rparr>)"

subsection \<open>Reset\<close>

definition reset_game :: "nat \<Rightarrow> SnakeGame \<Rightarrow> SnakeGame" where
  "reset_game r g =
     (let mid_x = width g div 2;
          mid_y = height g div 2;
          body = [Point mid_x mid_y, Point (mid_x - 1) mid_y, Point (mid_x - 2) mid_y]
      in spawn_food r
           (g\<lparr>snake := body, snake_positions := set body,
              direction := RIGHT, next_direction := RIGHT,
              score := 0, paused := False, quit_requested := False,
              needs_redraw := True\<rparr>))"

subsection \<open>Keyboard input\<close>

text \<open>
  The key codes of the curses library (\<open>KEY_DOWN\<close> 258, \<open>KEY_UP\<close> 259, \<open>KEY_LEFT\<close> 260,
  \<open>KEY_RIGHT\<close> 261) and the code points of the letters.
\<close>

definition KEY_DOWN :: int where "KEY_DOWN = 258"
definition KEY_UP :: int where "KEY_UP = 259"
definition KEY_LEFT :: int where "KEY_LEFT = 260"
definition KEY_RIGHT :: int where "KEY_RIGHT = 261"

definition direction_map :: "int \<Rightarrow> Direction option" where
  "direction_map key =
     (if key = KEY_UP then Some UP
      else if key = KEY_DOWN then Some DOWN
      else if key = KEY_LEFT then Some LEFT
      else if key = KEY_RIGHT then Some RIGHT
      else if key = 119 \<or> key = 87 then Some UP
      else if key = 115 \<or> key = 83 then Some DOWN
      else if key = 97 \<or> key = 65 then Some LEFT
      else if key = 100 \<or> key = 68 then Some RIGHT
      else None)"

definition handle_key :: "int \<Rightarrow> SnakeGame \<Rightarrow> SnakeGame" where
  "handle_key key g =
     (case direction_map key of
        Some new_direction \<Rightarrow>
          (if \<not> is_opposite new_direction (direction g) \<and> new_direction \<noteq> direction g
           then g\<lparr>next_direction := new_direction, needs_redraw := True\<rparr>
           else g)
      | None \<Rightarrow>
          (if key = 112 \<or> key = 80 then g\<lparr>paused := \<not> paused g, needs_redraw := True\<rparr>
           else if key = 113 \<or> key = 81 then g\<lparr>quit_requested := True\<rparr>
           else g))"

subsection \<open>The tick\<close>

definition in_bounds :: "SnakeGame \<Rightarrow> Point \<Rightarrow> bool" where
  "in_bounds g p \<longleftrightarrow>
     0 \<le> point_x p \<and> point_x p < width g \<and> 0 \<le> point_y p \<and> point_y p < height g"

text \<open>
  The first half of a non-colliding \<open>_update\<close>: when not growing, \<open>snake.pop()\<close> and
  \<open>snake_positions.remove(tail)\<close>; the latter raises \<open>KeyError\<close> when the tail is not in
  the set.
\<close>

definition drop_tail :: "bool \<Rightarrow> Point \<Rightarrow> SnakeGame \<Rightarrow> py_error + SnakeGame" where
  "drop_tail growing tail g =
     (if \<not> growing then
        (if snake g = [] then Inl IndexError
         else if tail \<notin> snake_positions g then Inl KeyError
         else Inr (g\<lparr>snake := butlast (snake g),
                      snake_positions := snake_positions g - {tail}\<rparr>))
      else Inr g)"

definition push_head :: "Point \<Rightarrow> SnakeGame \<Rightarrow> SnakeGame" where
  "push_head new_head g =
     g\<lparr>snake := new_head # snake g,
       snake_positions := insert new_head (snake_positions g)\<rparr>"

definition update :: "nat \<Rightarrow> SnakeGame \<Rightarrow> py_error + (GameState \<times> SnakeGame)" where
  "update r g =
     (case food g of
        None \<Rightarrow> Inr (WIN, g)
      | Some f \<Rightarrow>
          (let g1 = g\<lparr>direction := next_direction g\<rparr> in
           case snake g1 of
             [] \<Rightarrow> Inl IndexError
           | head # _ \<Rightarrow>
               (case delta (direction g1) of (dx, dy) \<Rightarrow>
                  (let new_head = translate head dx dy in
                   if \<not> in_bounds g1 new_head then Inr (COLLISION, g1)
                   else
                     (let growing = (new_head = f);
                          tail = last (snake g1)
                      in if new_head \<in> snake_positions g1
                            \<and> \<not> (\<not> growing \<and> new_head = tail)
                         then Inr (COLLISION, g1)
                         else
                           (case drop_tail growing tail g1 of
                              Inl e \<Rightarrow> Inl e
                            | Inr g2 \<Rightarrow>
                                (let g3 = push_head new_head g2 in
                                 if growing then
                                   (let g4 = spawn_food r (g3\<lparr>score := score g3 + 1\<rparr>) in
                                    if food g4 = None then Inr (WIN, g4)
                                    else Inr (RUNNING, g4\<lparr>needs_redraw := True\<rparr>))
                                 else Inr (RUNNING, g3\<lparr>needs_redraw := True\<rparr>))))))))"

subsection \<open>Sequences of inputs\<close>

text \<open>
  What the main loop does to the game between two redraws is one of: a key handed to
  \<open>_handle_key\<close>, a call of \<open>_update\<close> (with the random draw its spawn would use), or a
  \<open>_reset_game\<close> after a finished round. An exception ends the run.
\<close>

datatype event = Tick nat | Key int | Reset nat

fun apply_event :: "event \<Rightarrow> SnakeGame \<Rightarrow> py_error + SnakeGame" where
  "apply_event (Tick r) g = (case update r g of Inl e \<Rightarrow> Inl e | Inr (st, g') \<Rightarrow> Inr g')"
| "apply_event (Key k) g = Inr (handle_key k g)"
| "apply_event (Reset r) g = Inr (reset_game r g)"

fun run :: "event list \<Rightarrow> SnakeGame \<Rightarrow> py_error + SnakeGame" where
  "run [] g = Inr g"
| "run (e # es) g = (case apply_event e g of Inl err \<Rightarrow> Inl err | Inr g' \<Rightarrow> run es g')"

subsection \<open>Frame pacing\<close>

text \<open>
  The last lines of the loop body of \<open>_curses_main\<close>:
  \<open>sleep_for = max(0.0, min(self.frame_delay / 2, 0.016 - elapsed))\<close>, with the
  floats read as real numbers; \<open>elapsed\<close> is the measured duration of the iteration.
\<close>

definition sleep_for :: "SnakeGame \<Rightarrow> real \<Rightarrow> real" where
  "sleep_for g elapsed = max 0 (min (frame_delay g / 2) (0.016 - elapsed))"

subsection \<open>Observations and example states\<close>

text \<open>
  The cell the next tick moves the head to: the head translated by the delta of the
  pending direction, which \<open>_update\<close> commits first. None when the deque is empty.
\<close>

definition tick_new_head :: "SnakeGame \<Rightarrow> Point option" where
  "tick_new_head g =
     (case snake g of
        [] \<Rightarrow> None
      | head # _ \<Rightarrow>
          (case delta (next_direction g) of (dx, dy) \<Rightarrow> Some (translate head dx dy)))"

text \<open>\<open>growing = new_head == self.food\<close>, read off the state before the tick.\<close>

definition is_growing :: "SnakeGame \<Rightarrow> bool" where
  "is_growing g \<longleftrightarrow> food g \<noteq> None \<and> tick_new_head g = food g"

text \<open>The representation invariant of the snake.\<close>

definition snake_inv :: "SnakeGame \<Rightarrow> bool" where
  "snake_inv g \<longleftrightarrow>
     snake g \<noteq> [] \<and> snake_positions g = set (snake g) \<and> distinct (snake g)"

text \<open>A 10 by 10 game whose head is in the last column, moving right.\<close>

definition wall_game :: SnakeGame where
  "wall_game = \<lparr> width = 10, height = 10, speed = 10, frame_delay = 1 / 10,
       snake = [Point 9 5, Point 8 5, Point 7 5],
       snake_positions = {Point 9 5, Point 8 5, Point 7 5},
       direction = RIGHT, next_direction = RIGHT,
       food = Some (Point 0 0), score = 0,
       paused = False, quit_requested = False, needs_redraw = False \<rparr>"

text \<open>The object \<open>SnakeGame(10, 10, 10)\<close> as the constructor leaves it.\<close>

definition game_10 :: SnakeGame where
  "game_10 = \<lparr> width = 10, height = 10, speed = 10, frame_delay = 1 / 10,
       snake = [], snake_positions = {},
       direction = RIGHT, next_direction = RIGHT,
       food = None, score = 0,
       paused = False, quit_requested = False, needs_redraw = True \<rparr>"

text \<open>
  A round on that board: the reset puts the food right in front of the head (draw 53 of
  the 97 empty cells), the first tick eats it (the next food lands on cell (0, 0)), and
  the four-segment snake turns up, left and down, so that the next tick would move the
  head onto the tail.
\<close>

definition tail_chase_events :: "event list" where
  "tail_chase_events =
     [Reset 53, Tick 0, Key KEY_UP, Tick 0, Key KEY_LEFT, Tick 0, Key KEY_DOWN]"

definition tail_chase_game :: SnakeGame where
  "tail_chase_game = \<lparr> width = 10, height = 10, speed = 10, frame_delay = 1 / 10,
       snake = [Point 5 4, Point 6 4, Point 6 5, Point 5 5],
       snake_positions = {Point 5 4, Point 6 4, Point 6 5, Point 5 5},
       direction = LEFT, next_direction = DOWN,
       food = Some (Point 0 0), score = 1,
       paused = False, quit_requested = False, needs_redraw = True \<rparr>"

text \<open>The state after one more tick of \<open>tail_chase_game\<close>.\<close>

definition tail_chase_next :: SnakeGame where
  "tail_chase_next = \<lparr> width = 10, height = 10, speed = 10, frame_delay = 1 / 10,
       snake = [Point 5 5, Point 5 4, Point 6 4, Point 6 5],
       snake_positions = {Point 5 5, Point 5 4, Point 6 4, Point 6 5},
       direction = DOWN, next_direction = DOWN,
       food = Some (Point 0 0), score = 1,
       paused = False, quit_requested = False, needs_redraw = True \<rparr>"

text \<open>A five-segment snake about to move its head into the middle of its body.\<close>

definition bite_game :: SnakeGame where
  "bite_game = \<lparr> width = 10, height = 10, speed = 10, frame_delay = 1 / 10,
       snake = [Point 5 4, Point 6 4, Point 6 5, Point 5 5, Point 4 5],
       snake_positions = {Point 5 4, Point 6 4, Point 6 5, Point 5 5, Point 4 5},
       direction = LEFT, next_direction = DOWN,
       food = Some (Point 0 0), score = 2,
       paused = False, quit_requested = False, needs_redraw = True \<rparr>"

text \<open>
  The advance operation in the words of the specification, on the pair of the body
  sequence and the occupied set: first prepend \<open>new_head\<close> to the sequence and the set;
  then, if not growing, remove the tail from the sequence and unset it.
\<close>

definition advance_spec ::
    "Point \<Rightarrow> bool \<Rightarrow> Point list \<times> Point set \<Rightarrow> Point list \<times> Point set" where
  "advance_spec new_head growing s =
     (let body1 = new_head # fst s;
          occupied1 = insert new_head (snd s)
      in if \<not> growing then (butlast body1, occupied1 - {last body1})
         else (body1, occupied1))"

section \<open>Properties\<close>

subsection \<open>Auxiliary facts\<close>

lemma Point_in_empty_cells:
  "Point a b \<in> set (empty_cells g) \<longleftrightarrow>
     0 \<le> a \<and> a < width g \<and> 0 \<le> b \<and> b < height g \<and> Point a b \<notin> snake_positions g"
  by (simp add: empty_cells_def image_iff)

lemma set_empty_cells:
  "set (empty_cells g) = {p. in_bounds g p \<and> p \<notin> snake_positions g}"
proof (rule set_eqI)
  fix p
  obtain a b where p: "p = Point a b" by (cases p)
  show "p \<in> set (empty_cells g) \<longleftrightarrow> p \<in> {p. in_bounds g p \<and> p \<notin> snake_positions g}"
    unfolding p by (simp add: Point_in_empty_cells in_bounds_def)
qed

lemma spawn_food_fields:
  "spawn_food r g = g\<lparr>food := food (spawn_food r g)\<rparr>"
  by (simp add: spawn_food_def Let_def)

lemma snake_inv_spawn_food: "snake_inv (spawn_food r g) = snake_inv g"
  by (simp add: spawn_food_def snake_inv_def Let_def)

lemma snake_inv_reset_game: "snake_inv (reset_game r g)"
  by (simp add: reset_game_def Let_def snake_inv_spawn_food) (simp add: snake_inv_def)

lemma snake_inv_handle_key: "snake_inv (handle_key k g) = snake_inv g"
  by (simp add: handle_key_def snake_inv_def split: option.splits)

lemma set_butlast_distinct:
  assumes "xs \<noteq> []" and "distinct xs"
  shows "set (butlast xs) = set xs - {last xs}"
proof -
  have eq: "butlast xs @ [last xs] = xs" using assms(1) by (rule append_butlast_last_id)
  have "distinct (butlast xs @ [last xs])" using assms(2) by (simp only: eq)
  then have notin: "last xs \<notin> set (butlast xs)" by simp
  have "set xs = set (butlast xs @ [last xs])" by (simp only: eq)
  then have "set xs = insert (last xs) (set (butlast xs))" by simp
  with notin show ?thesis by blast
qed

lemma snake_inv_drop_tail:
  assumes "snake_inv g"
  shows "drop_tail True t g = Inr g"
    and "drop_tail False (last (snake g)) g =
           Inr (g\<lparr>snake := butlast (snake g),
                  snake_positions := set (butlast (snake g))\<rparr>)"
proof -
  show "drop_tail True t g = Inr g" by (simp add: drop_tail_def)
  from assms have ne: "snake g \<noteq> []" and pos: "snake_positions g = set (snake g)"
    and dist: "distinct (snake g)" by (simp_all add: snake_inv_def)
  have "last (snake g) \<in> snake_positions g" using ne pos by simp
  moreover have "snake_positions g - {last (snake g)} = set (butlast (snake g))"
    using set_butlast_distinct [OF ne dist] pos by simp
  ultimately show "drop_tail False (last (snake g)) g =
           Inr (g\<lparr>snake := butlast (snake g),
                  snake_positions := set (butlast (snake g))\<rparr>)"
    using ne by (simp add: drop_tail_def)
qed

lemma snake_inv_push_head:
  "snake_positions g = set (snake g) \<Longrightarrow> distinct (snake g) \<Longrightarrow> p \<notin> set (snake g) \<Longrightarrow>
     snake_inv (push_head p g)"
  by (simp add: push_head_def snake_inv_def)

lemma tick_new_head_SomeE:
  assumes "tick_new_head g = Some nh"
  obtains h t dx dy where "snake g = h # t" and "delta (next_direction g) = (dx, dy)"
    and "nh = translate h dx dy"
  using assms by (auto simp: tick_new_head_def split: list.splits prod.splits)

lemma tick_new_head_total: "snake g \<noteq> [] \<Longrightarrow> \<exists>nh. tick_new_head g = Some nh"
  by (cases "snake g"; cases "delta (next_direction g)") (simp_all add: tick_new_head_def)

lemma update_no_food: "food g = None \<Longrightarrow> update r g = Inr (WIN, g)"
  by (simp add: update_def)

lemma update_empty_snake: "food g = Some f \<Longrightarrow> snake g = [] \<Longrightarrow> update r g = Inl IndexError"
  by (simp add: update_def)

lemma update_wall:
  assumes "food g = Some f" and "tick_new_head g = Some nh" and "\<not> in_bounds g nh"
  shows "update r g = Inr (COLLISION, g\<lparr>direction := next_direction g\<rparr>)"
proof -
  from assms(2) obtain h t dx dy where "snake g = h # t" "delta (next_direction g) = (dx, dy)"
    "nh = translate h dx dy" by (rule tick_new_head_SomeE)
  with assms(1,3) show ?thesis by (simp add: update_def in_bounds_def)
qed

lemma update_self:
  assumes "food g = Some f" and "tick_new_head g = Some nh" and "in_bounds g nh"
    and "nh \<in> snake_positions g" and "\<not> (nh \<noteq> f \<and> nh = last (snake g))"
  shows "update r g = Inr (COLLISION, g\<lparr>direction := next_direction g\<rparr>)"
proof -
  from assms(2) obtain h t dx dy where "snake g = h # t" "delta (next_direction g) = (dx, dy)"
    "nh = translate h dx dy" by (rule tick_new_head_SomeE)
  with assms(1,3,4,5) show ?thesis by (simp add: update_def in_bounds_def Let_def)
qed

lemma update_grow:
  assumes "food g = Some f" and "tick_new_head g = Some f" and "in_bounds g f"
    and "f \<notin> snake_positions g"
  shows "update r g =
     (if food (spawn_food r (push_head f (g\<lparr>direction := next_direction g\<rparr>)
                               \<lparr>score := score g + 1\<rparr>)) = None
      then Inr (WIN, spawn_food r (push_head f (g\<lparr>direction := next_direction g\<rparr>)
                               \<lparr>score := score g + 1\<rparr>))
      else Inr (RUNNING, spawn_food r (push_head f (g\<lparr>direction := next_direction g\<rparr>)
                               \<lparr>score := score g + 1\<rparr>)\<lparr>needs_redraw := True\<rparr>))"
proof -
  from assms(2) obtain h t dx dy where "snake g = h # t" "delta (next_direction g) = (dx, dy)"
    "f = translate h dx dy" by (rule tick_new_head_SomeE)
  with assms(1,3,4) show ?thesis
    by (simp add: update_def in_bounds_def Let_def push_head_def drop_tail_def
          del: last.simps)
qed

lemma update_move:
  assumes "food g = Some f" and "tick_new_head g = Some nh" and "in_bounds g nh"
    and "nh \<noteq> f" and "nh \<notin> snake_positions g \<or> nh = last (snake g)"
  shows "update r g =
     (case drop_tail False (last (snake g)) (g\<lparr>direction := next_direction g\<rparr>) of
        Inl e \<Rightarrow> Inl e
      | Inr g2 \<Rightarrow> Inr (RUNNING, push_head nh g2\<lparr>needs_redraw := True\<rparr>))"
proof -
  from assms(2) obtain h t dx dy where "snake g = h # t" "delta (next_direction g) = (dx, dy)"
    "nh = translate h dx dy" by (rule tick_new_head_SomeE)
  with assms(1,3,4,5) show ?thesis
    unfolding \<open>nh = translate h dx dy\<close>
    by (auto simp: update_def in_bounds_def Let_def split: sum.splits simp del: last.simps)
qed

lemma snake_inv_grow:
  assumes "snake_inv g" and "p \<notin> snake_positions g"
  shows "snake_inv (spawn_food r (push_head p (g\<lparr>direction := d\<rparr>)\<lparr>score := n\<rparr>))"
    and "snake_inv (spawn_food r (push_head p (g\<lparr>direction := d\<rparr>)\<lparr>score := n\<rparr>)
                      \<lparr>needs_redraw := b\<rparr>)"
  using assms by (simp_all add: spawn_food_def Let_def push_head_def snake_inv_def)

lemma snake_inv_move:
  assumes "snake_inv g" and "p \<notin> snake_positions g \<or> p = last (snake g)"
  shows "drop_tail False (last (snake g)) (g\<lparr>direction := d\<rparr>) =
           Inr (g\<lparr>direction := d, snake := butlast (snake g),
                  snake_positions := set (butlast (snake g))\<rparr>)"
    and "snake_inv (push_head p (g\<lparr>direction := d, snake := butlast (snake g),
                  snake_positions := set (butlast (snake g))\<rparr>)\<lparr>needs_redraw := b\<rparr>)"
proof -
  from assms(1) have ne: "snake g \<noteq> []" and pos: "snake_positions g = set (snake g)"
    and dist: "distinct (snake g)" by (simp_all add: snake_inv_def)
  have bl: "set (butlast (snake g)) = set (snake g) - {last (snake g)}"
    using ne dist by (rule set_butlast_distinct)
  have inv1: "snake_inv (g\<lparr>direction := d\<rparr>)" using assms(1) by (simp add: snake_inv_def)
  show "drop_tail False (last (snake g)) (g\<lparr>direction := d\<rparr>) =
           Inr (g\<lparr>direction := d, snake := butlast (snake g),
                  snake_positions := set (butlast (snake g))\<rparr>)"
    using snake_inv_drop_tail(2) [OF inv1] by simp
  have "p \<notin> set (butlast (snake g))" using assms(2) pos bl by blast
  moreover have "distinct (butlast (snake g))" using dist by (rule distinct_butlast)
  ultimately show "snake_inv (push_head p (g\<lparr>direction := d, snake := butlast (snake g),
                  snake_positions := set (butlast (snake g))\<rparr>)\<lparr>needs_redraw := b\<rparr>)"
    by (simp add: push_head_def snake_inv_def)
qed

lemma update_total:
  assumes inv: "snake_inv g"
  shows "\<exists>st g'. update r g = Inr (st, g') \<and> snake_inv g'"
proof (cases "food g")
  case None
  then show ?thesis using inv by (simp add: update_no_food)
next
  case (Some f)
  from inv have "snake g \<noteq> []" by (simp add: snake_inv_def)
  then obtain nh where nh: "tick_new_head g = Some nh" using tick_new_head_total by blast
  have inv1: "snake_inv (g\<lparr>direction := next_direction g\<rparr>)"
    using inv by (simp add: snake_inv_def)
  show ?thesis
  proof (cases "in_bounds g nh")
    case False
    then show ?thesis using update_wall [OF Some nh] inv1 by simp
  next
    case inb: True
    show ?thesis
    proof (cases "nh \<in> snake_positions g \<and> \<not> (nh \<noteq> f \<and> nh = last (snake g))")
      case True
      then show ?thesis using update_self [OF Some nh inb] inv1 by simp
    next
      case free: False
      show ?thesis
      proof (cases "nh = f")
        case True
        with free have notin: "f \<notin> snake_positions g" by blast
        from nh True have nhf: "tick_new_head g = Some f" by simp
        from inb True have inbf: "in_bounds g f" by simp
        show ?thesis
          unfolding update_grow [OF Some nhf inbf notin]
          using snake_inv_grow [OF inv notin] by simp
      next
        case False
        from free False have c: "nh \<notin> snake_positions g \<or> nh = last (snake g)" by blast
        show ?thesis
          unfolding update_move [OF Some nh inb False c] snake_inv_move(1) [OF inv c]
          using snake_inv_move(2) [OF inv c] by simp
      qed
    qed
  qed
qed

lemma run_total:
  "snake_inv g \<Longrightarrow> \<exists>g'. run evs g = Inr g' \<and> snake_inv g'"
proof (induction evs arbitrary: g)
  case Nil
  then show ?case by simp
next
  case (Cons e evs)
  have "\<exists>g1. apply_event e g = Inr g1 \<and> snake_inv g1"
  proof (cases e)
    case (Tick r)
    from update_total [OF Cons.prems, of r] obtain st g1
      where "update r g = Inr (st, g1)" "snake_inv g1" by blast
    then show ?thesis using Tick by simp
  next
    case (Key k)
    then show ?thesis using Cons.prems by (simp add: snake_inv_handle_key)
  next
    case (Reset r)
    then show ?thesis by (simp add: snake_inv_reset_game)
  qed
  then obtain g1 where g1: "apply_event e g = Inr g1" "snake_inv g1" by blast
  from Cons.IH [OF g1(2)] g1(1) show ?case by simp
qed

lemma init_game_10: "init 10 10 10 = Inr game_10"
  by (simp add: init_def game_10_def)

lemma run_tail_chase: "run tail_chase_events game_10 = Inr tail_chase_game"
  by code_simp

lemma update_tail_chase: "update r tail_chase_game = Inr (RUNNING, tail_chase_next)"
  by (simp add: update_def tail_chase_game_def tail_chase_next_def Let_def translate_def
        in_bounds_def drop_tail_def push_head_def insert_commute)

lemma update_bite: "update r bite_game = Inr (COLLISION, bite_game\<lparr>direction := DOWN\<rparr>)"
  by (simp add: update_def bite_game_def Let_def translate_def in_bounds_def)

lemma snake_spawn_food: "snake (spawn_food r g) = snake g"
  and snake_positions_spawn_food: "snake_positions (spawn_food r g) = snake_positions g"
  and score_spawn_food: "score (spawn_food r g) = score g"
  by (simp_all add: spawn_food_def Let_def)

text \<open>What a tick that returns RUNNING or WIN with food on the board has done.\<close>

lemma update_advance_result:
  assumes "update r g = Inr (st, g')" and "st \<noteq> COLLISION"
    and "food g = Some f" and "tick_new_head g = Some nh"
  shows "snake g \<noteq> []
     \<and> snake g' = nh # (if nh = f then snake g else butlast (snake g))
     \<and> snake_positions g' =
         insert nh (if nh = f then snake_positions g
                    else snake_positions g - {last (snake g)})
     \<and> score g' = (if nh = f then score g + 1 else score g)"
proof -
  from assms(4) have ne: "snake g \<noteq> []" by (auto simp: tick_new_head_def)
  have inb: "in_bounds g nh"
  proof (rule ccontr)
    assume "\<not> in_bounds g nh"
    from update_wall [OF assms(3,4) this, of r] assms(1,2) show False by simp
  qed
  have free: "nh \<notin> snake_positions g \<or> (nh \<noteq> f \<and> nh = last (snake g))"
  proof (rule ccontr)
    assume "\<not> ?thesis"
    then have "nh \<in> snake_positions g" "\<not> (nh \<noteq> f \<and> nh = last (snake g))" by blast+
    from update_self [OF assms(3,4) inb this, of r] assms(1,2) show False by simp
  qed
  show ?thesis
  proof (cases "nh = f")
    case True
    with free have notin: "f \<notin> snake_positions g" by blast
    from assms(4) True have nhf: "tick_new_head g = Some f" by simp
    from inb True have inbf: "in_bounds g f" by simp
    from assms(1) have "g' = spawn_food r (push_head f (g\<lparr>direction := next_direction g\<rparr>)
                               \<lparr>score := score g + 1\<rparr>)
       \<or> g' = spawn_food r (push_head f (g\<lparr>direction := next_direction g\<rparr>)
                               \<lparr>score := score g + 1\<rparr>)\<lparr>needs_redraw := True\<rparr>"
      unfolding update_grow [OF assms(3) nhf inbf notin] by (simp split: if_splits)
    then show ?thesis using True ne
      by (auto simp: snake_spawn_food snake_positions_spawn_food score_spawn_food push_head_def)
  next
    case False
    from free False have c: "nh \<notin> snake_positions g \<or> nh = last (snake g)" by blast
    from assms(1) have "last (snake g) \<in> snake_positions g
        \<and> g' = push_head nh (g\<lparr>direction := next_direction g, snake := butlast (snake g),
                     snake_positions := snake_positions g - {last (snake g)}\<rparr>)
                   \<lparr>needs_redraw := True\<rparr>"
      unfolding update_move [OF assms(3,4) inb False c] using ne
      by (simp add: drop_tail_def split: if_splits)
    then show ?thesis using False ne by (simp add: push_head_def)
  qed
qed

subsection \<open>The claims\<close>

text \<open>
  C9. A tick that returns COLLISION leaves the body sequence, the occupied set, the food
  cell and the score as they were; the only attribute it has changed is the current
  direction, which has taken the value of the pending direction.
\<close>

theorem update_collision_frame:
  "update r g = Inr (COLLISION, g') \<Longrightarrow> g' = g\<lparr>direction := next_direction g\<rparr>"
  by (auto simp: update_def Let_def split: option.splits list.splits prod.splits
        if_splits sum.splits)

lemma update_wall_game: "update r wall_game = Inr (COLLISION, wall_game)"
  by (simp add: update_def wall_game_def Let_def translate_def in_bounds_def)

theorem update_collision_frame_witness:
  "update 0 wall_game = Inr (COLLISION, wall_game)
   \<and> wall_game = wall_game\<lparr>direction := next_direction wall_game\<rparr>"
  using update_collision_frame [of 0 wall_game wall_game] update_wall_game [of 0]
  by simp

text \<open>
  C2. Start from any game object, reset it, and feed it any sequence of ticks, key
  presses (direction, pause, quit or other keys) and further resets: no step raises, and
  in the state reached the companion set is exactly the set of the points of the body
  sequence, and the body sequence has no duplicate point.
\<close>

theorem reachable_snake_invariant:
  "\<exists>g'. run evs (reset_game r g) = Inr g'
        \<and> snake_positions g' = set (snake g') \<and> distinct (snake g')"
  using run_total [OF snake_inv_reset_game, of evs r g] by (auto simp: snake_inv_def)

text \<open>
  C1. On a tick of a game that has food and a snake, when the new head (the head moved by
  the delta of the direction the tick commits) is in bounds and in the occupied set:
  if the tick is not growing and the new head is the current tail, the tick returns
  RUNNING and has moved the snake (new head in front, tail dropped); in every other case
  it returns COLLISION.
\<close>

theorem self_collision_rule:
  assumes "food g = Some f" and "tick_new_head g = Some nh" and "in_bounds g nh"
    and "nh \<in> snake_positions g"
  shows "update r g =
     (if nh \<noteq> f \<and> nh = last (snake g)
      then Inr (RUNNING, g\<lparr>direction := next_direction g,
                           snake := nh # butlast (snake g),
                           snake_positions := insert nh (snake_positions g - {nh}),
                           needs_redraw := True\<rparr>)
      else Inr (COLLISION, g\<lparr>direction := next_direction g\<rparr>))"
proof (cases "nh \<noteq> f \<and> nh = last (snake g)")
  case True
  then have nf: "nh \<noteq> f" and eq: "nh = last (snake g)" by blast+
  from assms(2) have ne: "snake g \<noteq> []" by (auto simp: tick_new_head_def)
  from eq have c: "nh \<notin> snake_positions g \<or> nh = last (snake g)" by blast
  from update_move [OF assms(1,2,3) nf c, of r] nf eq assms(4) ne
  show ?thesis by (simp add: drop_tail_def push_head_def)
next
  case False
  then show ?thesis using update_self [OF assms False] by simp
qed

theorem self_collision_rule_witness:
  "food tail_chase_game = Some (Point 0 0)
   \<and> tick_new_head tail_chase_game = Some (Point 5 5)
   \<and> in_bounds tail_chase_game (Point 5 5)
   \<and> Point 5 5 \<in> snake_positions tail_chase_game
   \<and> Point 5 5 = last (snake tail_chase_game)
   \<and> update 0 tail_chase_game = Inr (RUNNING, tail_chase_next)
   \<and> food bite_game = Some (Point 0 0)
   \<and> tick_new_head bite_game = Some (Point 5 5)
   \<and> in_bounds bite_game (Point 5 5)
   \<and> Point 5 5 \<in> snake_positions bite_game
   \<and> Point 5 5 \<noteq> last (snake bite_game)
   \<and> update 0 bite_game = Inr (COLLISION, bite_game\<lparr>direction := DOWN\<rparr>)"
  using self_collision_rule [of tail_chase_game "Point 0 0" "Point 5 5" 0]
    self_collision_rule [of bite_game "Point 0 0" "Point 5 5" 0]
  by (simp add: tail_chase_game_def tail_chase_next_def bite_game_def tick_new_head_def
        translate_def in_bounds_def insert_commute)

end
